theory Spec2Isabelle
  imports Main
begin

section \<open>Strings and regular-expression character classes\<close>

text \<open>
  A JavaScript string is modelled as a \<^typ>\<open>string\<close>: one \<^typ>\<open>char\<close> per UTF-16 code
  unit, restricted to the code units below 256. \<open>length\<close> is the source's
  \<^verbatim>\<open>.length\<close>, and a string is falsy exactly when it is empty.
\<close>

definition truthy :: "string \<Rightarrow> bool" where
  "truthy s = (s \<noteq> [])"

text \<open>\<^verbatim>\<open>a || b\<close> on a possibly absent string: the left operand unless it is absent or empty.\<close>

definition orElse :: "string option \<Rightarrow> string \<Rightarrow> string" where
  "orElse m d = (case m of None \<Rightarrow> d | Some s \<Rightarrow> if truthy s then s else d)"

definition code :: "char \<Rightarrow> nat" where
  "code c = of_char c"

text \<open>\<^verbatim>\<open>[A-Z]\<close>, \<^verbatim>\<open>[a-z]\<close>, \<^verbatim>\<open>\d\<close>, \<^verbatim>\<open>[@$!%*?&]\<close> and \<^verbatim>\<open>\s\<close>.\<close>

definition isUppercase :: "char \<Rightarrow> bool" where
  "isUppercase c = (65 \<le> code c \<and> code c \<le> 90)"

definition isLowercase :: "char \<Rightarrow> bool" where
  "isLowercase c = (97 \<le> code c \<and> code c \<le> 122)"

definition isDigit :: "char \<Rightarrow> bool" where
  "isDigit c = (48 \<le> code c \<and> code c \<le> 57)"

definition isSpecialChar :: "char \<Rightarrow> bool" where
  "isSpecialChar c = (c \<in> set ''@$!%*?&'')"

definition isWhitespace :: "char \<Rightarrow> bool" where
  "isWhitespace c = (code c \<in> {9, 10, 11, 12, 13, 32, 160})"

text \<open>The line terminators that \<^verbatim>\<open>.\<close> refuses to match (line feed, carriage return).\<close>

definition isLineTerminator :: "char \<Rightarrow> bool" where
  "isLineTerminator c = (code c \<in> {10, 13})"

text \<open>
  The lookahead \<^verbatim>\<open>(?=.*[cls])\<close> at the start of the input: some character of the
  class stands after a run of characters that \<^verbatim>\<open>.\<close> matches.
\<close>

definition lookahead :: "(char \<Rightarrow> bool) \<Rightarrow> string \<Rightarrow> bool" where
  "lookahead cls s =
     list_ex cls (takeWhile (\<lambda>c. \<not> isLineTerminator c) s @
                  take 1 (dropWhile (\<lambda>c. \<not> isLineTerminator c) s))"

section \<open>Reset-password screen\<close>

datatype strength = weak | medium | strong

text \<open>\<^verbatim>\<open>checkPasswordStrength\<close>: five tests, the number that pass, and the two thresholds.\<close>

definition passedChecks :: "string \<Rightarrow> nat" where
  "passedChecks password =
     (let hasUppercase = list_ex isUppercase password;
          hasLowercase = list_ex isLowercase password;
          hasNumber = list_ex isDigit password;
          hasSpecialChar = list_ex isSpecialChar password;
          isLongEnough = (8 \<le> length password)
      in length (filter (\<lambda>b. b)
           [hasUppercase, hasLowercase, hasNumber, hasSpecialChar, isLongEnough]))"

definition checkPasswordStrength :: "string \<Rightarrow> strength" where
  "checkPasswordStrength password =
     (if passedChecks password \<le> 2 then weak
      else if passedChecks password \<le> 4 then medium
      else strong)"

text \<open>
  \<^verbatim>\<open>/^(?=.*[a-z])(?=.*[A-Z])(?=.*\d)(?=.*[@$!%*?&])[A-Za-z\d@$!%*?&]{8,}$/\<close>:
  four lookaheads at position 0, then at least eight characters of the listed class up to
  the end of the input.
\<close>

definition isAllowedChar :: "char \<Rightarrow> bool" where
  "isAllowedChar c = (isUppercase c \<or> isLowercase c \<or> isDigit c \<or> isSpecialChar c)"

definition passwordRegex :: "string \<Rightarrow> bool" where
  "passwordRegex s =
     (lookahead isLowercase s \<and> lookahead isUppercase s \<and> lookahead isDigit s \<and>
      lookahead isSpecialChar s \<and> 8 \<le> length s \<and> list_all isAllowedChar s)"

text \<open>
  \<^verbatim>\<open>validateForm\<close> of the reset-password screen. The result pairs the returned boolean
  with the \<open>error\<close> state the call leaves (\<open>None\<close> after \<^verbatim>\<open>setError(null)\<close>).
\<close>

definition resetValidateForm :: "string \<Rightarrow> string \<Rightarrow> bool \<times> string option" where
  "resetValidateForm password confirmPassword =
     (if \<not> truthy password \<or> length password < 8
        then (False, Some ''Password must be at least 8 characters long'')
      else if \<not> passwordRegex password
        then (False, Some ''Password must include uppercase, lowercase, number, and special character'')
      else if password \<noteq> confirmPassword
        then (False, Some ''Passwords do not match'')
      else (True, None))"

text \<open>
  The five criteria as the specification words them, each counted once: an uppercase
  letter, a lowercase letter, a digit, a special character, and a length of at least 8.
\<close>

definition criteriaMet :: "string \<Rightarrow> nat" where
  "criteriaMet p =
     of_bool (\<exists>c \<in> set p. isUppercase c) + of_bool (\<exists>c \<in> set p. isLowercase c) +
     of_bool (\<exists>c \<in> set p. isDigit c) + of_bool (\<exists>c \<in> set p. isSpecialChar c) +
     of_bool (8 \<le> length p)"

section \<open>Registration screen\<close>

text \<open>
  \<^verbatim>\<open>/^[^\s@]+@[^\s@]+\.[^\s@]+$/\<close>. The first run cannot contain an at-sign, so it
  is the text before the first at-sign; after that at-sign no further at-sign or white
  space may occur, and a dot must stand there with at least one character on each side.
\<close>

definition emailRegex :: "string \<Rightarrow> bool" where
  "emailRegex s =
     (let localPart = takeWhile (\<lambda>c. c \<noteq> CHR ''@'') s;
          rest = dropWhile (\<lambda>c. c \<noteq> CHR ''@'') s
      in localPart \<noteq> [] \<and> list_all (\<lambda>c. \<not> isWhitespace c) localPart \<and> rest \<noteq> [] \<and>
         list_all (\<lambda>c. \<not> isWhitespace c \<and> c \<noteq> CHR ''@'') (tl rest) \<and>
         CHR ''.'' \<in> set (butlast (tl (tl rest))))"

text \<open>
  \<^verbatim>\<open>/^\+?[\d\s-]{10,}$/\<close>: an optional leading plus sign, then at least ten
  characters, each a digit, white space or a hyphen, up to the end of the input.
\<close>

definition phoneRegex :: "string \<Rightarrow> bool" where
  "phoneRegex s =
     (let body = (case s of c # cs \<Rightarrow> if c = CHR ''+'' then cs else s | [] \<Rightarrow> s)
      in 10 \<le> length body \<and>
         list_all (\<lambda>c. isDigit c \<or> isWhitespace c \<or> c = CHR ''-'') body)"

record formErrors =
  emailError :: string
  phoneNumberError :: string
  passwordError :: string
  confirmPasswordError :: string

text \<open>
  \<^verbatim>\<open>validateForm\<close> of the registration screen, from the form fields it reads and the
  \<open>isEmailVerified\<close> state. Every check runs, in the source's order; a later check
  overwrites the message of an earlier one. The result is the returned \<open>isValid\<close> with
  the errors handed to \<^verbatim>\<open>setFormErrors\<close>.
\<close>

definition validateForm ::
  "string \<Rightarrow> string \<Rightarrow> string \<Rightarrow> string \<Rightarrow> bool \<Rightarrow> bool \<times> formErrors" where
  "validateForm email phoneNumber password confirmPassword isEmailVerified =
     (let isValid = True;
          newErrors = \<lparr>emailError = [], phoneNumberError = [], passwordError = [],
                       confirmPasswordError = []\<rparr>;
          (isValid, newErrors) =
            (if \<not> truthy email \<and> \<not> truthy phoneNumber
             then (False, newErrors\<lparr>emailError := ''Either email or phone number is required'',
                                     phoneNumberError := ''Either email or phone number is required''\<rparr>)
             else (isValid, newErrors));
          (isValid, newErrors) =
            (if truthy email \<and> \<not> emailRegex email
             then (False, newErrors\<lparr>emailError := ''Please enter a valid email address''\<rparr>)
             else (isValid, newErrors));
          (isValid, newErrors) =
            (if truthy phoneNumber \<and> \<not> phoneRegex phoneNumber
             then (False, newErrors\<lparr>phoneNumberError := ''Please enter a valid phone number''\<rparr>)
             else (isValid, newErrors));
          (isValid, newErrors) =
            (if length password < 8
             then (False, newErrors\<lparr>passwordError := ''Password must be at least 8 characters''\<rparr>)
             else (isValid, newErrors));
          (isValid, newErrors) =
            (if password \<noteq> confirmPassword
             then (False, newErrors\<lparr>confirmPasswordError := ''Passwords do not match''\<rparr>)
             else (isValid, newErrors));
          (isValid, newErrors) =
            (if truthy email \<and> \<not> isEmailVerified
             then (False, newErrors\<lparr>emailError := ''Email must be verified''\<rparr>)
             else (isValid, newErrors))
      in (isValid, newErrors))"

subsection \<open>One-time passcode confirmation\<close>

text \<open>
  What a call of the HTTP client gives back: \<open>Returned v\<close> when the promise resolves,
  \<open>Threw m\<close> when it rejects, \<open>m\<close> being \<^verbatim>\<open>err.response?.data?.message\<close>
  (\<open>None\<close> when any link of that chain is absent).
\<close>

datatype 'a call = Returned 'a | Threw "string option"

datatype toast = Toast string string bool

record otpState =
  otp :: "string list"
  isVerifying :: bool
  isEmailVerified :: bool
  showOtpModal :: bool
  verificationError :: string
  toasts :: "toast list"

text \<open>
  \<^verbatim>\<open>handleVerifyOtp\<close>. The argument \<open>confirm\<close> is the outcome of the POST to
  \<^verbatim>\<open>/mail/confirm\<close>: \<open>Returned m\<close> carries \<^verbatim>\<open>response.data?.message\<close>. A toast is
  title, description and whether its variant is destructive.
\<close>

definition handleVerifyOtp :: "string option call \<Rightarrow> otpState \<Rightarrow> otpState" where
  "handleVerifyOtp confirm st =
     (let otpValue = concat (otp st) in
      if length otpValue \<noteq> 6
      then st\<lparr>verificationError := ''Please enter a valid 6-digit OTP''\<rparr>
      else
        (let st = st\<lparr>isVerifying := True, verificationError := []\<rparr>;
             st = (case confirm of
                     Returned message \<Rightarrow>
                       if message = Some ''Email verified.''
                       then st\<lparr>isEmailVerified := True, showOtpModal := False,
                               toasts := toasts st @
                                 [Toast ''Email Verified''
                                    ''Your email has been successfully verified.'' False]\<rparr>
                       else st\<lparr>verificationError := orElse message ''Invalid OTP''\<rparr>
                   | Threw message \<Rightarrow>
                       st\<lparr>verificationError := orElse message ''Verification failed'',
                           toasts := toasts st @
                             [Toast ''Verification Failed''
                                (orElse message ''Failed to verify OTP'') True]\<rparr>)
         in st\<lparr>isVerifying := False\<rparr>))"

section \<open>Locations and rendered elements\<close>

record Location =
  pathname :: string
  search :: string
  hash :: string

text \<open>What a component renders: its children, or a redirect with target, carried
  \<^verbatim>\<open>state.from\<close> and the \<open>replace\<close> flag.\<close>

datatype 'a element = Children 'a | Navigate string Location bool

text \<open>The login screen's \<^verbatim>\<open>location.state?.from?.pathname || "/dashboard"\<close>; the argument
  is \<^verbatim>\<open>location.state?.from\<close>.\<close>

definition loginFrom :: "Location option \<Rightarrow> string" where
  "loginFrom stateFrom = orElse (map_option pathname stateFrom) ''/dashboard''"

text \<open>The full path of a location (path, query string and fragment), which a navigation
  has to name to return to that location.\<close>

definition fullPath :: "Location \<Rightarrow> string" where
  "fullPath l = pathname l @ search l @ hash l"

section \<open>Authentication slice\<close>

record User =
  id' :: string
  fullName :: string
  email :: string
  phoneNumber :: string
  languagePreference :: string
  location :: string

record AuthState =
  isAuthenticated :: bool
  user :: "User option"
  loading :: bool
  error :: "string option"

text \<open>
  The reducers and thunks act on the slice's state and on the Token Store, so the state
  that is passed along holds both. The store keeps at most one token string.
\<close>

record world =
  tokenStore :: "string option"
  auth :: AuthState

text \<open>
  Modelled from the spec: \<^verbatim>\<open>setAccessToken\<close> of the authentication service, which the
  slice imports and whose source is not at hand; the Token Store's \<open>set(token)\<close>, after
  which the store holds that token.
\<close>

definition setAccessToken :: "string \<Rightarrow> world \<Rightarrow> world" where
  "setAccessToken token w = w\<lparr>tokenStore := Some token\<rparr>"

text \<open>
  Modelled from the spec: \<^verbatim>\<open>getAccessToken\<close> of the authentication service; the Token
  Store's \<open>get() -> token|absent\<close>.
\<close>

definition getAccessToken :: "world \<Rightarrow> string option" where
  "getAccessToken w = tokenStore w"

text \<open>
  Modelled from the spec: \<^verbatim>\<open>removeAccessToken\<close> of the authentication service; the Token
  Store's \<open>remove()\<close>, after which the store holds no token. The expiry test
  \<^verbatim>\<open>isTokenExpired\<close> of the same service is a parameter of \<open>checkAuth\<close>.
\<close>

definition removeAccessToken :: "world \<Rightarrow> world" where
  "removeAccessToken w = w\<lparr>tokenStore := None\<rparr>"

text \<open>Truthiness of \<^verbatim>\<open>getAccessToken()\<close>: a token is there and it is not the empty string.\<close>

definition hasToken :: "string option \<Rightarrow> bool" where
  "hasToken t = (case t of None \<Rightarrow> False | Some s \<Rightarrow> truthy s)"

definition initialState :: "string option \<Rightarrow> AuthState" where
  "initialState stored =
     \<lparr>isAuthenticated = hasToken stored, user = None, loading = False, error = None\<rparr>"

definition initialWorld :: "string option \<Rightarrow> world" where
  "initialWorld stored = \<lparr>tokenStore = stored, auth = initialState stored\<rparr>"

text \<open>
  The actions of the slice: its two reducers, and pending, fulfilled and rejected of each
  thunk with the payload the thunk returns (access token and citizen, the user, the
  response data) or rejects with (a message).
\<close>

datatype action =
    logout
  | clearError
  | checkAuth_pending
  | checkAuth_fulfilled string User
  | checkAuth_rejected string
  | loginByEmailThunk_pending
  | loginByEmailThunk_fulfilled string User
  | loginByEmailThunk_rejected string
  | refreshTokenThunk_pending
  | refreshTokenThunk_fulfilled string User
  | refreshTokenThunk_rejected string
  | registerCitizen_pending
  | registerCitizen_fulfilled string
  | registerCitizen_rejected string
  | changePassword_pending
  | changePassword_fulfilled string
  | changePassword_rejected string
  | fetchCurrentUser_pending
  | fetchCurrentUser_fulfilled User
  | fetchCurrentUser_rejected string
  | logoutThunk_pending
  | logoutThunk_fulfilled
  | logoutThunk_rejected string

text \<open>
  The slice's reducer: \<open>reducers\<close> and \<open>extraReducers\<close>, one equation per case. The
  slice has no case for the actions of \<open>registerCitizen\<close> and \<open>changePassword\<close>, which
  therefore leave the state as it is.
\<close>

fun authReducer :: "world \<Rightarrow> action \<Rightarrow> world" where
  "authReducer w logout =
     removeAccessToken (w\<lparr>auth := (auth w)\<lparr>isAuthenticated := False, user := None, error := None\<rparr>\<rparr>)"
| "authReducer w clearError = w\<lparr>auth := (auth w)\<lparr>error := None\<rparr>\<rparr>"
| "authReducer w checkAuth_pending = w\<lparr>auth := (auth w)\<lparr>loading := True, error := None\<rparr>\<rparr>"
| "authReducer w (checkAuth_fulfilled accessToken citizen) =
     w\<lparr>auth := (auth w)\<lparr>isAuthenticated := True, user := Some citizen, loading := False,
                         error := None\<rparr>\<rparr>"
| "authReducer w (checkAuth_rejected payload) =
     removeAccessToken
       (w\<lparr>auth := (auth w)\<lparr>isAuthenticated := False, user := None, loading := False,
                           error := Some payload\<rparr>\<rparr>)"
| "authReducer w loginByEmailThunk_pending =
     w\<lparr>auth := (auth w)\<lparr>loading := True, error := None\<rparr>\<rparr>"
| "authReducer w (loginByEmailThunk_fulfilled accessToken citizen) =
     w\<lparr>auth := (auth w)\<lparr>isAuthenticated := True, user := Some citizen, loading := False,
                         error := None\<rparr>\<rparr>"
| "authReducer w (loginByEmailThunk_rejected payload) =
     removeAccessToken
       (w\<lparr>auth := (auth w)\<lparr>isAuthenticated := False, user := None, loading := False,
                           error := Some payload\<rparr>\<rparr>)"
| "authReducer w refreshTokenThunk_pending =
     w\<lparr>auth := (auth w)\<lparr>loading := True, error := None\<rparr>\<rparr>"
| "authReducer w (refreshTokenThunk_fulfilled accessToken citizen) =
     w\<lparr>auth := (auth w)\<lparr>loading := False, isAuthenticated := True, user := Some citizen\<rparr>\<rparr>"
| "authReducer w (refreshTokenThunk_rejected payload) =
     w\<lparr>auth := (auth w)\<lparr>loading := False, error := Some payload, isAuthenticated := False,
                         user := None\<rparr>\<rparr>"
| "authReducer w fetchCurrentUser_pending =
     w\<lparr>auth := (auth w)\<lparr>loading := True, error := None\<rparr>\<rparr>"
| "authReducer w (fetchCurrentUser_fulfilled payload) =
     w\<lparr>auth := (auth w)\<lparr>loading := False, user := Some payload\<rparr>\<rparr>"
| "authReducer w (fetchCurrentUser_rejected payload) =
     w\<lparr>auth := (auth w)\<lparr>loading := False, error := Some payload, user := None,
                         isAuthenticated := False\<rparr>\<rparr>"
| "authReducer w logoutThunk_pending = w\<lparr>auth := (auth w)\<lparr>loading := True, error := None\<rparr>\<rparr>"
| "authReducer w logoutThunk_fulfilled =
     w\<lparr>auth := (auth w)\<lparr>isAuthenticated := False, user := None, loading := False,
                         error := None\<rparr>\<rparr>"
| "authReducer w (logoutThunk_rejected payload) =
     w\<lparr>auth := (auth w)\<lparr>loading := False, error := Some payload\<rparr>\<rparr>"
| "authReducer w registerCitizen_pending = w"
| "authReducer w (registerCitizen_fulfilled payload) = w"
| "authReducer w (registerCitizen_rejected payload) = w"
| "authReducer w changePassword_pending = w"
| "authReducer w (changePassword_fulfilled payload) = w"
| "authReducer w (changePassword_rejected payload) = w"

subsection \<open>Thunks\<close>

text \<open>
  A thunk's payload creator takes the outcomes of the calls it awaits and the state it
  runs in; it gives the state it leaves (the Token Store may have changed) and the action
  it ends with. A fetch of the profile stands for decoding the token where the source
  decodes it first, inside the same \<^verbatim>\<open>try\<close>.

  The branch of \<open>checkAuth\<close> for a token that needs no refresh, also reached when the
  refresh answers without a token:
\<close>

definition checkAuth_valid :: "User call \<Rightarrow> string \<Rightarrow> world \<Rightarrow> world \<times> action" where
  "checkAuth_valid userResponse token w =
     (case userResponse of
        Returned citizen \<Rightarrow> (w, checkAuth_fulfilled token citizen)
      | Threw m \<Rightarrow> (removeAccessToken (removeAccessToken w), checkAuth_rejected []))"

text \<open>
  \<open>checkAuth\<close>. An error thrown in either inner \<^verbatim>\<open>try\<close> is replaced by a fresh
  \<^verbatim>\<open>Error\<close> without a response, so the outer handler rejects with the empty string, after
  a second \<^verbatim>\<open>removeAccessToken\<close>.
\<close>

definition checkAuth ::
  "(string \<Rightarrow> bool) \<Rightarrow> string call \<Rightarrow> User call \<Rightarrow> world \<Rightarrow> world \<times> action" where
  "checkAuth isTokenExpired refreshResponse userResponse w =
     (case getAccessToken w of
        None \<Rightarrow> (removeAccessToken w, checkAuth_rejected ''No authentication token found'')
      | Some token \<Rightarrow>
          if \<not> truthy token
          then (removeAccessToken w, checkAuth_rejected ''No authentication token found'')
          else if isTokenExpired token
          then (case refreshResponse of
                  Threw m \<Rightarrow> (removeAccessToken (removeAccessToken w), checkAuth_rejected [])
                | Returned data \<Rightarrow>
                    if truthy data
                    then (let w = setAccessToken data w in
                          case userResponse of
                            Returned citizen \<Rightarrow> (w, checkAuth_fulfilled data citizen)
                          | Threw m \<Rightarrow>
                              (removeAccessToken (removeAccessToken w), checkAuth_rejected []))
                    else checkAuth_valid userResponse token w)
          else checkAuth_valid userResponse token w)"

text \<open>\<open>loginByEmailThunk\<close>; \<open>loginResponse\<close> carries \<^verbatim>\<open>response.accessToken\<close>.\<close>

definition loginByEmailThunk :: "string call \<Rightarrow> User call \<Rightarrow> world \<Rightarrow> world \<times> action" where
  "loginByEmailThunk loginResponse userResponse w =
     (case loginResponse of
        Threw m \<Rightarrow> (w, loginByEmailThunk_rejected (orElse m ''Invalid credentials''))
      | Returned accessToken \<Rightarrow>
          (let w = setAccessToken accessToken w in
           case userResponse of
             Returned citizen \<Rightarrow> (w, loginByEmailThunk_fulfilled accessToken citizen)
           | Threw m \<Rightarrow> (w, loginByEmailThunk_rejected (orElse m ''Invalid credentials''))))"

text \<open>\<open>refreshTokenThunk\<close>; the profile comes from \<^verbatim>\<open>/citizens/me\<close>, with defaults for
  two of its fields.\<close>

definition refreshTokenThunk :: "string call \<Rightarrow> User call \<Rightarrow> world \<Rightarrow> world \<times> action" where
  "refreshTokenThunk refreshResponse userResponse w =
     (case refreshResponse of
        Threw m \<Rightarrow> (w, refreshTokenThunk_rejected (orElse m ''Token refresh failed''))
      | Returned data \<Rightarrow>
          if truthy data
          then (let w = setAccessToken data w in
                case userResponse of
                  Returned dto \<Rightarrow>
                    (w, refreshTokenThunk_fulfilled data
                          \<lparr>id' = id' dto, fullName = fullName dto, email = email dto,
                           phoneNumber = phoneNumber dto,
                           languagePreference = orElse (Some (languagePreference dto)) ''en'',
                           location = orElse (Some (location dto)) []\<rparr>)
                | Threw m \<Rightarrow> (w, refreshTokenThunk_rejected (orElse m ''Token refresh failed'')))
          else (w, refreshTokenThunk_rejected ''Token refresh failed''))"

definition registerCitizen :: "string call \<Rightarrow> world \<Rightarrow> world \<times> action" where
  "registerCitizen postResponse w =
     (case postResponse of
        Returned data \<Rightarrow> (w, registerCitizen_fulfilled data)
      | Threw m \<Rightarrow> (w, registerCitizen_rejected (orElse m ''Registration failed'')))"

definition changePassword :: "string call \<Rightarrow> world \<Rightarrow> world \<times> action" where
  "changePassword putResponse w =
     (case putResponse of
        Returned data \<Rightarrow> (w, changePassword_fulfilled data)
      | Threw m \<Rightarrow> (w, changePassword_rejected (orElse m ''Password change failed'')))"

definition fetchCurrentUser :: "User call \<Rightarrow> world \<Rightarrow> world \<times> action" where
  "fetchCurrentUser userResponse w =
     (if \<not> hasToken (getAccessToken w)
      then (w, fetchCurrentUser_rejected ''Failed to fetch user data'')
      else (case userResponse of
              Returned u \<Rightarrow> (w, fetchCurrentUser_fulfilled u)
            | Threw m \<Rightarrow> (w, fetchCurrentUser_rejected (orElse m ''Failed to fetch user data''))))"

text \<open>
  \<open>logoutThunk\<close> awaits a call of \<^verbatim>\<open>logout()\<close> inside a \<^verbatim>\<open>try\<close> and touches
  nothing else. The outcome of the awaited call is the parameter.
\<close>

definition logoutThunk :: "unit call \<Rightarrow> world \<Rightarrow> world \<times> action" where
  "logoutThunk logoutCall w =
     (case logoutCall of
        Returned u \<Rightarrow> (w, logoutThunk_fulfilled)
      | Threw m \<Rightarrow> (w, logoutThunk_rejected ''Logout failed''))"

text \<open>
  The call that \<open>logoutThunk\<close> awaits in the source: \<^verbatim>\<open>logout\<close> is bound there to
  the slice's own \<open>logout\<close> action creator (the module exports it on its last lines
  and imports no other \<^verbatim>\<open>logout\<close>), whose call builds an action, dispatches nothing
  and cannot throw.
\<close>

definition logoutCreated :: "unit call" where
  "logoutCreated = Returned ()"

text \<open>
  Dispatching a thunk: the pending action is reduced, the payload creator runs, and the
  action it ends with is reduced.
\<close>

definition dispatchThunk :: "action \<Rightarrow> (world \<Rightarrow> world \<times> action) \<Rightarrow> world \<Rightarrow> world" where
  "dispatchThunk pending body w =
     (let (w', a) = body (authReducer w pending) in authReducer w' a)"

subsection \<open>Login screen\<close>

text \<open>
  A navigation is its target and its \<open>replace\<close> flag. While rendering, the login screen
  navigates to \<open>from\<close> when the state says authenticated.
\<close>

definition loginRender :: "bool \<Rightarrow> Location option \<Rightarrow> (string \<times> bool) option" where
  "loginRender authenticated stateFrom =
     (if authenticated then Some (loginFrom stateFrom, True) else None)"

text \<open>
  \<^verbatim>\<open>handleEmailLogin\<close>: with an empty field it only clears the error; otherwise it
  dispatches the login thunk, and \<^verbatim>\<open>unwrap()\<close> lets the navigation happen only after
  a fulfilled action.
\<close>

definition handleEmailLogin ::
  "string \<Rightarrow> string \<Rightarrow> Location option \<Rightarrow> string call \<Rightarrow> User call \<Rightarrow> world \<Rightarrow>
   world \<times> (string \<times> bool) option" where
  "handleEmailLogin emailField passwordField stateFrom loginResponse userResponse w =
     (if \<not> truthy emailField \<or> \<not> truthy passwordField
      then (authReducer w clearError, None)
      else
        (let (w', a) = loginByEmailThunk loginResponse userResponse
                         (authReducer w loginByEmailThunk_pending)
         in (authReducer w' a,
             case a of
               loginByEmailThunk_fulfilled accessToken citizen \<Rightarrow> Some (loginFrom stateFrom, True)
             | _ \<Rightarrow> None)))"

subsection \<open>Route guard\<close>

datatype error = TypeError

text \<open>
  The default export of the slice's module is the slice's reducer, a function of a state
  and an action. The reducer that the toolkit builds looks up the type of the action
  before anything else, so a call that passes no action throws a \<open>TypeError\<close>; a call
  that passes no state starts from the initial state computed when the module was
  loaded. The Token Store is that of \<open>w\<close>.
\<close>

definition sliceReducer ::
  "string option \<Rightarrow> world \<Rightarrow> AuthState option \<Rightarrow> action option \<Rightarrow> error + world" where
  "sliceReducer storedAtLoad w state act =
     (case act of
        None \<Rightarrow> Inl TypeError
      | Some a \<Rightarrow>
          Inr (authReducer
                 (w\<lparr>auth := (case state of None \<Rightarrow> initialState storedAtLoad | Some s \<Rightarrow> s)\<rparr>) a))"

text \<open>
  The guard's \<^verbatim>\<open>useAuth\<close> is the default import of the slice's module, hence that
  reducer, and the guard calls it without arguments.
\<close>

definition useAuth :: "string option \<Rightarrow> world \<Rightarrow> error + world" where
  "useAuth storedAtLoad w = sliceReducer storedAtLoad w None None"

text \<open>
  \<^verbatim>\<open>ProtectedRoute\<close>, rendered over the state \<open>w\<close> at the location of
  \<^verbatim>\<open>useLocation()\<close>: it takes \<open>isAuthenticated\<close> from what \<open>useAuth()\<close> returns, and an
  error thrown there leaves the render without a result.
\<close>

definition ProtectedRoute ::
  "string option \<Rightarrow> world \<Rightarrow> Location \<Rightarrow> 'a \<Rightarrow> error + 'a element" where
  "ProtectedRoute storedAtLoad w location' children =
     (case useAuth storedAtLoad w of
        Inl e \<Rightarrow> Inl e
      | Inr r \<Rightarrow>
          if \<not> isAuthenticated (auth r)
          then Inr (Navigate ''/login'' location' True)
          else Inr (Children children))"

subsection \<open>Reachable states\<close>

text \<open>
  A thunk in flight, at one of the awaits of its payload creator: the token or the
  access token it holds is the argument. \<open>ending a\<close> is a payload creator that has
  returned, before its final action \<open>a\<close> is dispatched.
\<close>

datatype flight =
    checkAuth_refreshing string
  | checkAuth_fetching string
  | login_calling
  | login_fetching string
  | refresh_calling
  | refresh_fetching string
  | register_posting
  | changePassword_putting
  | fetchCurrentUser_fetching
  | logoutThunk_awaiting
  | ending action

text \<open>
  The code of \<open>checkAuth\<close> and of \<open>fetchCurrentUser\<close> before their first await, which runs
  with the dispatch of the pending action.
\<close>

definition checkAuth_begin :: "(string \<Rightarrow> bool) \<Rightarrow> world \<Rightarrow> world \<times> flight" where
  "checkAuth_begin isTokenExpired w =
     (case getAccessToken w of
        None \<Rightarrow> (removeAccessToken w, ending (checkAuth_rejected ''No authentication token found''))
      | Some token \<Rightarrow>
          if \<not> truthy token
          then (removeAccessToken w, ending (checkAuth_rejected ''No authentication token found''))
          else if isTokenExpired token then (w, checkAuth_refreshing token)
          else (w, checkAuth_fetching token))"

definition fetchCurrentUser_begin :: "world \<Rightarrow> world \<times> flight" where
  "fetchCurrentUser_begin w =
     (if \<not> hasToken (getAccessToken w)
      then (w, ending (fetchCurrentUser_rejected ''Failed to fetch user data''))
      else (w, fetchCurrentUser_fetching))"

text \<open>
  An awaited call comes back and the payload creator runs on to its next await or to its
  end: \<open>resume f w f' w'\<close>. One rule per outcome and per await of the source. The call
  that \<open>logoutThunk\<close> awaits is the slice's own action creator, which only resolves.
\<close>

inductive resume :: "flight \<Rightarrow> world \<Rightarrow> flight \<Rightarrow> world \<Rightarrow> bool" where
  checkAuth_refresh_threw:
    "resume (checkAuth_refreshing token) w
       (ending (checkAuth_rejected [])) (removeAccessToken (removeAccessToken w))"
| checkAuth_refresh_token:
    "truthy data \<Longrightarrow>
     resume (checkAuth_refreshing token) w (checkAuth_fetching data) (setAccessToken data w)"
| checkAuth_refresh_no_token:
    "\<not> truthy data \<Longrightarrow> resume (checkAuth_refreshing token) w (checkAuth_fetching token) w"
| checkAuth_user:
    "resume (checkAuth_fetching accessToken) w
       (ending (checkAuth_fulfilled accessToken citizen)) w"
| checkAuth_user_threw:
    "resume (checkAuth_fetching accessToken) w
       (ending (checkAuth_rejected [])) (removeAccessToken (removeAccessToken w))"
| login_token:
    "resume login_calling w (login_fetching accessToken) (setAccessToken accessToken w)"
| login_threw:
    "resume login_calling w
       (ending (loginByEmailThunk_rejected (orElse m ''Invalid credentials''))) w"
| login_user:
    "resume (login_fetching accessToken) w
       (ending (loginByEmailThunk_fulfilled accessToken citizen)) w"
| login_user_threw:
    "resume (login_fetching accessToken) w
       (ending (loginByEmailThunk_rejected (orElse m ''Invalid credentials''))) w"
| refresh_token:
    "truthy data \<Longrightarrow> resume refresh_calling w (refresh_fetching data) (setAccessToken data w)"
| refresh_no_token:
    "\<not> truthy data \<Longrightarrow>
     resume refresh_calling w (ending (refreshTokenThunk_rejected ''Token refresh failed'')) w"
| refresh_threw:
    "resume refresh_calling w
       (ending (refreshTokenThunk_rejected (orElse m ''Token refresh failed''))) w"
| refresh_user:
    "resume (refresh_fetching data) w
       (ending (refreshTokenThunk_fulfilled data
          \<lparr>id' = id' (dto :: User), fullName = fullName dto, email = email dto,
           phoneNumber = phoneNumber dto,
           languagePreference = orElse (Some (languagePreference dto)) ''en'',
           location = orElse (Some (location dto)) []\<rparr>)) w"
| refresh_user_threw:
    "resume (refresh_fetching data) w
       (ending (refreshTokenThunk_rejected (orElse m ''Token refresh failed''))) w"
| register_posted:
    "resume register_posting w (ending (registerCitizen_fulfilled responseData)) w"
| register_threw:
    "resume register_posting w
       (ending (registerCitizen_rejected (orElse m ''Registration failed''))) w"
| changePassword_put:
    "resume changePassword_putting w (ending (changePassword_fulfilled responseData)) w"
| changePassword_threw:
    "resume changePassword_putting w
       (ending (changePassword_rejected (orElse m ''Password change failed''))) w"
| fetchCurrentUser_user:
    "resume fetchCurrentUser_fetching w (ending (fetchCurrentUser_fulfilled u)) w"
| fetchCurrentUser_threw:
    "resume fetchCurrentUser_fetching w
       (ending (fetchCurrentUser_rejected (orElse m ''Failed to fetch user data''))) w"
| logoutThunk_resolved:
    "resume logoutThunk_awaiting w (ending logoutThunk_fulfilled) w"

text \<open>
  The states that a run reaches from the initial state over a Token Store holding
  \<open>stored\<close>, with the thunks in flight and the actions reduced so far. The two plain
  actions and the dispatch of any thunk can happen at any time; thunks in flight advance
  in any order, so that anything may happen between two awaits of a payload creator and
  before its final action.
\<close>

inductive reachable :: "string option \<Rightarrow> world \<Rightarrow> flight list \<Rightarrow> action list \<Rightarrow> bool"
  for stored :: "string option" where
  initial: "reachable stored (initialWorld stored) [] []"
| plain:
    "reachable stored w fs h \<Longrightarrow> a = logout \<or> a = clearError \<Longrightarrow>
     reachable stored (authReducer w a) fs (h @ [a])"
| dispatch_checkAuth:
    "reachable stored w fs h \<Longrightarrow>
     checkAuth_begin isTokenExpired (authReducer w checkAuth_pending) = (w', f) \<Longrightarrow>
     reachable stored w' (fs @ [f]) (h @ [checkAuth_pending])"
| dispatch_loginByEmailThunk:
    "reachable stored w fs h \<Longrightarrow>
     reachable stored (authReducer w loginByEmailThunk_pending) (fs @ [login_calling])
       (h @ [loginByEmailThunk_pending])"
| dispatch_refreshTokenThunk:
    "reachable stored w fs h \<Longrightarrow>
     reachable stored (authReducer w refreshTokenThunk_pending) (fs @ [refresh_calling])
       (h @ [refreshTokenThunk_pending])"
| dispatch_registerCitizen:
    "reachable stored w fs h \<Longrightarrow>
     reachable stored (authReducer w registerCitizen_pending) (fs @ [register_posting])
       (h @ [registerCitizen_pending])"
| dispatch_changePassword:
    "reachable stored w fs h \<Longrightarrow>
     reachable stored (authReducer w changePassword_pending) (fs @ [changePassword_putting])
       (h @ [changePassword_pending])"
| dispatch_fetchCurrentUser:
    "reachable stored w fs h \<Longrightarrow>
     fetchCurrentUser_begin (authReducer w fetchCurrentUser_pending) = (w', f) \<Longrightarrow>
     reachable stored w' (fs @ [f]) (h @ [fetchCurrentUser_pending])"
| dispatch_logoutThunk:
    "reachable stored w fs h \<Longrightarrow>
     reachable stored (authReducer w logoutThunk_pending) (fs @ [logoutThunk_awaiting])
       (h @ [logoutThunk_pending])"
| resumed:
    "reachable stored w (xs @ f # ys) h \<Longrightarrow> resume f w f' w' \<Longrightarrow>
     reachable stored w' (xs @ f' # ys) h"
| ended:
    "reachable stored w (xs @ ending a # ys) h \<Longrightarrow>
     reachable stored (authReducer w a) (xs @ ys) (h @ [a])"

text \<open>
  The invariant as the specification words it: an authenticated state has an unexpired
  token in the Token Store, and its user is populated or being fetched (\<open>loading\<close>).
\<close>

definition specInvariant :: "(string \<Rightarrow> bool) \<Rightarrow> world \<Rightarrow> bool" where
  "specInvariant isTokenExpired w =
     (isAuthenticated (auth w) \<longrightarrow>
        (case tokenStore w of None \<Rightarrow> False | Some t \<Rightarrow> \<not> isTokenExpired t) \<and>
        (user (auth w) \<noteq> None \<or> loading (auth w)))"

text \<open>The actions whose reducer case writes \<open>isAuthenticated\<close> or \<open>user\<close>.\<close>

fun writesSession :: "action \<Rightarrow> bool" where
  "writesSession logout = True"
| "writesSession (checkAuth_fulfilled accessToken citizen) = True"
| "writesSession (checkAuth_rejected payload) = True"
| "writesSession (loginByEmailThunk_fulfilled accessToken citizen) = True"
| "writesSession (loginByEmailThunk_rejected payload) = True"
| "writesSession (refreshTokenThunk_fulfilled accessToken citizen) = True"
| "writesSession (refreshTokenThunk_rejected payload) = True"
| "writesSession (fetchCurrentUser_fulfilled payload) = True"
| "writesSession (fetchCurrentUser_rejected payload) = True"
| "writesSession logoutThunk_fulfilled = True"
| "writesSession a = False"

text \<open>
  What the reachable states do satisfy. Until an action that writes \<open>isAuthenticated\<close>
  or \<open>user\<close> has been reduced, \<open>isAuthenticated\<close> is whether a token was stored at
  initialisation and \<open>user\<close> is absent; from then on an authenticated state has its user.
\<close>

definition sessionInv :: "string option \<Rightarrow> world \<Rightarrow> action list \<Rightarrow> bool" where
  "sessionInv stored w h =
     (if list_ex writesSession h
      then isAuthenticated (auth w) \<longrightarrow> user (auth w) \<noteq> None
      else isAuthenticated (auth w) = hasToken stored \<and> user (auth w) = None)"

section \<open>Password gate and strength scorer\<close>

lemma passedChecks_criteriaMet: "passedChecks p = criteriaMet p"
  by (simp add: passedChecks_def criteriaMet_def Let_def list_ex_iff)

lemma criteriaMet_le_5: "criteriaMet p \<le> 5"
  by (simp add: criteriaMet_def of_bool_def)

lemma lookahead_list_ex:
  assumes "lookahead cls s"
  shows "list_ex cls s"
proof -
  from assms obtain c where c: "cls c"
    and mem: "c \<in> set (takeWhile (\<lambda>c. \<not> isLineTerminator c) s) \<or>
              c \<in> set (take 1 (dropWhile (\<lambda>c. \<not> isLineTerminator c) s))"
    by (auto simp: lookahead_def list_ex_iff)
  from mem have "c \<in> set s"
  proof
    assume "c \<in> set (takeWhile (\<lambda>c. \<not> isLineTerminator c) s)"
    then show ?thesis by (rule set_takeWhileD [THEN conjunct1])
  next
    assume "c \<in> set (take 1 (dropWhile (\<lambda>c. \<not> isLineTerminator c) s))"
    then have "c \<in> set (dropWhile (\<lambda>c. \<not> isLineTerminator c) s)"
      by (rule in_set_takeD)
    then show ?thesis by (rule set_dropWhileD)
  qed
  with c show ?thesis by (auto simp: list_ex_iff)
qed

lemma passwordRegex_classes:
  assumes "passwordRegex p"
  shows "8 \<le> length p" and "list_ex isUppercase p" and "list_ex isLowercase p"
    and "list_ex isDigit p" and "list_ex isSpecialChar p"
  using assms by (auto simp: passwordRegex_def intro: lookahead_list_ex)

lemma resetValidateForm_regex:
  assumes "fst (resetValidateForm p c)"
  shows "passwordRegex p" and "c = p"
  using assms by (auto simp: resetValidateForm_def split: if_splits)

lemmas char_class_defs =
  isUppercase_def isLowercase_def isDigit_def isSpecialChar_def isAllowedChar_def
  isLineTerminator_def isWhitespace_def code_def

lemma passwordRegex_Str0ng: "passwordRegex ''Str0ng!Pass''"
  by (simp add: passwordRegex_def lookahead_def char_class_defs)

lemma passwordRegex_weakpass: "\<not> passwordRegex ''weakpass''"
  by (simp add: passwordRegex_def lookahead_def char_class_defs)

text \<open>
  C7. The reset-password submission gate accepts a password only if it has at least 8
  characters and contains an uppercase letter, a lowercase letter, a digit and one of the
  special characters \<^verbatim>\<open>@$!%*?&\<close>. Both the regular expression and the whole of
  \<^verbatim>\<open>validateForm\<close> accept \<^verbatim>\<open>Str0ng!Pass\<close> and reject \<^verbatim>\<open>weakpass\<close>.
\<close>

theorem reset_gate_requires_all_classes:
  "(fst (resetValidateForm p c) \<longrightarrow> passwordRegex p) \<and>
   (passwordRegex p \<longrightarrow>
      8 \<le> length p \<and> list_ex isUppercase p \<and> list_ex isLowercase p \<and>
      list_ex isDigit p \<and> list_ex isSpecialChar p) \<and>
   passwordRegex ''Str0ng!Pass'' \<and>
   resetValidateForm ''Str0ng!Pass'' ''Str0ng!Pass'' = (True, None) \<and>
   \<not> passwordRegex ''weakpass'' \<and>
   resetValidateForm ''weakpass'' ''weakpass'' =
     (False, Some ''Password must include uppercase, lowercase, number, and special character'')"
proof -
  have "resetValidateForm ''Str0ng!Pass'' ''Str0ng!Pass'' = (True, None)"
    using passwordRegex_Str0ng by (simp add: resetValidateForm_def truthy_def)
  moreover have "resetValidateForm ''weakpass'' ''weakpass'' =
     (False, Some ''Password must include uppercase, lowercase, number, and special character'')"
    using passwordRegex_weakpass by (simp add: resetValidateForm_def truthy_def)
  ultimately show ?thesis
    using passwordRegex_Str0ng passwordRegex_weakpass
    by (auto dest: resetValidateForm_regex passwordRegex_classes)
qed

theorem reset_gate_requires_all_classes_witness:
  "fst (resetValidateForm ''Abcdef1!'' ''Abcdef1!'') \<and> passwordRegex ''Abcdef1!'' \<and>
   8 \<le> length ''Abcdef1!'' \<and> list_ex isUppercase ''Abcdef1!'' \<and>
   list_ex isLowercase ''Abcdef1!'' \<and> list_ex isDigit ''Abcdef1!'' \<and>
   list_ex isSpecialChar ''Abcdef1!''"
proof -
  have re: "passwordRegex ''Abcdef1!''"
    by (simp add: passwordRegex_def lookahead_def char_class_defs)
  then have "fst (resetValidateForm ''Abcdef1!'' ''Abcdef1!'')"
    by (simp add: resetValidateForm_def truthy_def)
  with re show ?thesis
    using reset_gate_requires_all_classes [of "''Abcdef1!''" "''Abcdef1!''"] by blast
qed

text \<open>
  C8. The strength scorer counts how many of the five criteria pass and returns weak for
  at most 2, medium for 3 or 4, and strong for all 5; \<^verbatim>\<open>abc\<close> scores weak and
  \<^verbatim>\<open>Abcdef12\<close>, which meets 4 criteria, scores medium.
\<close>

theorem checkPasswordStrength_by_count:
  "passedChecks p = criteriaMet p \<and>
   (checkPasswordStrength p = weak) = (criteriaMet p \<le> 2) \<and>
   (checkPasswordStrength p = medium) = (criteriaMet p = 3 \<or> criteriaMet p = 4) \<and>
   (checkPasswordStrength p = strong) = (criteriaMet p = 5) \<and>
   checkPasswordStrength ''abc'' = weak \<and>
   criteriaMet ''Abcdef12'' = 4 \<and>
   checkPasswordStrength ''Abcdef12'' = medium"
proof -
  have abc: "criteriaMet ''abc'' = 1"
    by (simp add: criteriaMet_def char_class_defs)
  have a12: "criteriaMet ''Abcdef12'' = 4"
    by (simp add: criteriaMet_def char_class_defs)
  have gen: "(checkPasswordStrength p = weak) = (criteriaMet p \<le> 2)"
    "(checkPasswordStrength p = medium) = (criteriaMet p = 3 \<or> criteriaMet p = 4)"
    "(checkPasswordStrength p = strong) = (criteriaMet p = 5)"
    using criteriaMet_le_5 [of p]
    by (auto simp: checkPasswordStrength_def passedChecks_criteriaMet)
  have "checkPasswordStrength ''abc'' = weak"
    by (simp add: checkPasswordStrength_def passedChecks_criteriaMet abc)
  moreover have "checkPasswordStrength ''Abcdef12'' = medium"
    by (simp add: checkPasswordStrength_def passedChecks_criteriaMet a12)
  ultimately show ?thesis
    using gen a12 by (simp add: passedChecks_criteriaMet)
qed

text \<open>
  C10. Every password that the regular expression of the reset-password gate accepts is
  scored strong: acceptance forces all five scoring criteria.
\<close>

theorem passwordRegex_implies_strong:
  assumes "passwordRegex p"
  shows "checkPasswordStrength p = strong"
proof -
  from passwordRegex_classes [OF assms] have "passedChecks p = 5"
    by (simp add: passedChecks_def Let_def)
  then show ?thesis by (simp add: checkPasswordStrength_def)
qed

theorem passwordRegex_implies_strong_witness:
  "passwordRegex ''Str0ng!Pass'' \<and> checkPasswordStrength ''Str0ng!Pass'' = strong"
  using passwordRegex_implies_strong [OF passwordRegex_Str0ng] passwordRegex_Str0ng by simp

section \<open>Registration form and passcode confirmation\<close>

lemma validateForm_isValid:
  "fst (validateForm e ph pw cpw v) =
     (\<not> (\<not> truthy e \<and> \<not> truthy ph) \<and> \<not> (truthy e \<and> \<not> emailRegex e) \<and>
      \<not> (truthy ph \<and> \<not> phoneRegex ph) \<and> \<not> length pw < 8 \<and> pw = cpw \<and>
      \<not> (truthy e \<and> \<not> v))"
  by (simp add: validateForm_def Let_def)

lemma emailRegex_example: "emailRegex ''a@b.co''"
  by (simp add: emailRegex_def char_class_defs)

text \<open>
  C5. The registration form's local validation returns \<open>isValid = false\<close> whenever
  email and phone number are both empty, or an email is supplied while the
  email-verification state is not verified, or the password has fewer than 8 characters,
  or the confirmation differs from the password.
\<close>

theorem validateForm_blocks:
  assumes "(e = [] \<and> ph = []) \<or> (e \<noteq> [] \<and> \<not> v) \<or> length pw < 8 \<or> cpw \<noteq> pw"
  shows "fst (validateForm e ph pw cpw v) = False"
  using assms by (auto simp: validateForm_isValid truthy_def)

theorem validateForm_blocks_witness:
  "fst (validateForm [] [] ''longenough1'' ''longenough1'' False) = False \<and>
   fst (validateForm ''a@b.co'' [] ''longenough1'' ''longenough1'' False) = False \<and>
   fst (validateForm ''a@b.co'' [] ''short'' ''short'' True) = False \<and>
   fst (validateForm ''a@b.co'' [] ''longenough1'' ''longenough2'' True) = False \<and>
   fst (validateForm ''a@b.co'' [] ''longenough1'' ''longenough1'' True) = True"
  using validateForm_blocks [of "[]" "[]" False "''longenough1''" "''longenough1''"]
    validateForm_blocks [of "''a@b.co''" "[]" False "''longenough1''" "''longenough1''"]
    validateForm_blocks [of "''a@b.co''" "[]" True "''short''" "''short''"]
    validateForm_blocks [of "''a@b.co''" "[]" True "''longenough1''" "''longenough2''"]
    emailRegex_example
  by (simp add: validateForm_isValid truthy_def)

text \<open>
  C6, as amended. With six digits entered, a response that the confirmation call returns
  marks the email verified and closes the passcode input exactly when its message is
  \<^verbatim>\<open>Email verified.\<close>; after any other message the verification state and the input
  stay as they were, and the inline error is that message when it is not empty and
  \<^verbatim>\<open>Invalid OTP\<close> when it is empty or absent. When the call throws, the state stays as
  it was and the inline error is the server's message or \<^verbatim>\<open>Verification failed\<close>.
\<close>

theorem handleVerifyOtp_outcomes:
  assumes "length (concat (otp st)) = 6"
  shows
   "isEmailVerified (handleVerifyOtp (Returned message) st) =
      (isEmailVerified st \<or> message = Some ''Email verified.'') \<and>
    showOtpModal (handleVerifyOtp (Returned message) st) =
      (showOtpModal st \<and> message \<noteq> Some ''Email verified.'') \<and>
    verificationError (handleVerifyOtp (Returned message) st) =
      (if message = Some ''Email verified.'' then [] else orElse message ''Invalid OTP'') \<and>
    (msg \<noteq> [] \<and> msg \<noteq> ''Email verified.'' \<longrightarrow>
       verificationError (handleVerifyOtp (Returned (Some msg)) st) = msg) \<and>
    isEmailVerified (handleVerifyOtp (Threw message) st) = isEmailVerified st \<and>
    showOtpModal (handleVerifyOtp (Threw message) st) = showOtpModal st \<and>
    verificationError (handleVerifyOtp (Threw message) st) = orElse message ''Verification failed''"
  using assms by (simp add: handleVerifyOtp_def Let_def orElse_def truthy_def)

theorem handleVerifyOtp_outcomes_witness:
  "length (concat (otp \<lparr>otp = [''1'', ''2'', ''3'', ''4'', ''5'', ''6''], isVerifying = False,
         isEmailVerified = False, showOtpModal = True, verificationError = [],
         toasts = []\<rparr>)) = 6 \<and>
   isEmailVerified (handleVerifyOtp (Returned (Some ''Email verified.''))
      \<lparr>otp = [''1'', ''2'', ''3'', ''4'', ''5'', ''6''], isVerifying = False,
         isEmailVerified = False, showOtpModal = True, verificationError = [],
         toasts = []\<rparr>) \<and>
   verificationError (handleVerifyOtp (Returned (Some ''Invalid or expired OTP''))
      \<lparr>otp = [''1'', ''2'', ''3'', ''4'', ''5'', ''6''], isVerifying = False,
         isEmailVerified = False, showOtpModal = True, verificationError = [],
         toasts = []\<rparr>) = ''Invalid or expired OTP''"
  using handleVerifyOtp_outcomes [of "\<lparr>otp = [''1'', ''2'', ''3'', ''4'', ''5'', ''6''],
         isVerifying = False, isEmailVerified = False, showOtpModal = True,
         verificationError = [], toasts = []\<rparr>" "Some ''Email verified.''"
         "''Invalid or expired OTP''"]
  by simp

text \<open>
  The claim as first worded fails for the empty message: it is not the success message,
  the state stays unverified, yet the inline error is \<^verbatim>\<open>Invalid OTP\<close> and not the
  (empty) message.
\<close>

theorem handleVerifyOtp_empty_message:
  "isEmailVerified
     (handleVerifyOtp (Returned (Some []))
        \<lparr>otp = [''1'', ''2'', ''3'', ''4'', ''5'', ''6''], isVerifying = False,
         isEmailVerified = False, showOtpModal = True, verificationError = [],
         toasts = []\<rparr>) = False \<and>
   verificationError
     (handleVerifyOtp (Returned (Some []))
        \<lparr>otp = [''1'', ''2'', ''3'', ''4'', ''5'', ''6''], isVerifying = False,
         isEmailVerified = False, showOtpModal = True, verificationError = [],
         toasts = []\<rparr>) = ''Invalid OTP''"
  by (simp add: handleVerifyOtp_def Let_def orElse_def truthy_def)

section \<open>Route guard and return after login\<close>

lemma login_returns_to_pathname:
  "loginFrom (Some l) = (if pathname l = [] then ''/dashboard'' else pathname l) \<and>
   loginFrom None = ''/dashboard'' \<and>
   loginRender True stateFrom = Some (loginFrom stateFrom, True) \<and>
   loginRender False stateFrom = None \<and>
   (emailField \<noteq> [] \<and> passwordField \<noteq> [] \<longrightarrow>
      snd (handleEmailLogin emailField passwordField stateFrom (Returned accessToken)
             (Returned citizen) w) = Some (loginFrom stateFrom, True) \<and>
      isAuthenticated (auth (fst (handleEmailLogin emailField passwordField stateFrom
             (Returned accessToken) (Returned citizen) w))) \<and>
      snd (handleEmailLogin emailField passwordField stateFrom (Threw m) userResponse w) = None \<and>
      snd (handleEmailLogin emailField passwordField stateFrom loginResponse (Threw m) w) = None)"
  by (simp add: loginFrom_def orElse_def truthy_def loginRender_def
      handleEmailLogin_def loginByEmailThunk_def setAccessToken_def Let_def split: call.split)

lemma login_drops_query_string:
  "loginFrom (Some \<lparr>pathname = ''/lawyers'', search = ''?q=tax'', hash = []\<rparr>) = ''/lawyers'' \<and>
   fullPath \<lparr>pathname = ''/lawyers'', search = ''?q=tax'', hash = []\<rparr> = ''/lawyers?q=tax''"
  by (simp add: loginFrom_def orElse_def truthy_def fullPath_def)

text \<open>
  C9. The claim has the guard render the protected content when \<open>isAuthenticated\<close> is
  true and redirect to the login screen, carrying the requested location, when it is
  false. The guard of the source does neither: its \<^verbatim>\<open>useAuth()\<close> is the slice's reducer
  called without an action, which throws, whatever the state and the location. Evaluated
  over an authenticated state at \<^verbatim>\<open>/dashboard\<close> and over the signed-out initial state
  at \<^verbatim>\<open>/profile\<close>.
\<close>

theorem ProtectedRoute_throws:
  "ProtectedRoute storedAtLoad w l children = Inl TypeError \<and>
   ProtectedRoute (Some ''tok'')
     \<lparr>tokenStore = Some ''tok'',
      auth = \<lparr>isAuthenticated = True,
              user = Some \<lparr>id' = ''1'', fullName = ''A'', email = ''a@b.co'', phoneNumber = [],
                           languagePreference = ''en'', location = []\<rparr>,
              loading = False, error = None\<rparr>\<rparr>
     \<lparr>pathname = ''/dashboard'', search = [], hash = []\<rparr> () = Inl TypeError \<and>
   ProtectedRoute None (initialWorld None)
     \<lparr>pathname = ''/profile'', search = [], hash = []\<rparr> () = Inl TypeError"
  by (simp add: ProtectedRoute_def useAuth_def sliceReducer_def)

section \<open>Authentication state machine\<close>

lemmas store_defs = setAccessToken_def getAccessToken_def removeAccessToken_def

subsection \<open>Uninterrupted runs\<close>

text \<open>
  A thunk that runs from its dispatch to its final action with nothing in between is a
  run of the reachable states: it ends in the state that \<open>dispatchThunk\<close> computes
  from the outcomes of the awaited calls.
\<close>

lemma resumed_last:
  assumes "reachable stored w (fs @ [f]) h" and "resume f w f' w'"
  shows "reachable stored w' (fs @ [f']) h"
  using resumed [of stored w fs f "[]" h f' w'] assms by simp

lemma ended_last:
  assumes "reachable stored w (fs @ [ending a]) h"
  shows "reachable stored (authReducer w a) fs (h @ [a])"
  using ended [of stored w fs a "[]" h] assms by simp

lemma dispatch_login_run:
  assumes "reachable stored w fs h"
  shows "\<exists>a. reachable stored
           (dispatchThunk loginByEmailThunk_pending (loginByEmailThunk lr ur) w) fs
           (h @ [loginByEmailThunk_pending, a])"
proof -
  let ?w1 = "authReducer w loginByEmailThunk_pending"
  have r1: "reachable stored ?w1 (fs @ [login_calling]) (h @ [loginByEmailThunk_pending])"
    by (rule dispatch_loginByEmailThunk [OF assms])
  show ?thesis
  proof (cases lr)
    case (Threw m)
    from r1 have "reachable stored ?w1
        (fs @ [ending (loginByEmailThunk_rejected (orElse m ''Invalid credentials''))])
        (h @ [loginByEmailThunk_pending])"
      by (rule resumed_last) (rule login_threw)
    from ended_last [OF this] Threw show ?thesis
      by (auto simp: dispatchThunk_def loginByEmailThunk_def)
  next
    case (Returned t)
    from r1 have r2: "reachable stored (setAccessToken t ?w1) (fs @ [login_fetching t])
        (h @ [loginByEmailThunk_pending])"
      by (rule resumed_last) (rule login_token)
    show ?thesis
    proof (cases ur)
      case (Threw m)
      from r2 have "reachable stored (setAccessToken t ?w1)
          (fs @ [ending (loginByEmailThunk_rejected (orElse m ''Invalid credentials''))])
          (h @ [loginByEmailThunk_pending])"
        by (rule resumed_last) (rule login_user_threw)
      from ended_last [OF this] Threw Returned show ?thesis
        by (auto simp: dispatchThunk_def loginByEmailThunk_def Let_def)
    next
      case (Returned c)
      from r2 have "reachable stored (setAccessToken t ?w1)
          (fs @ [ending (loginByEmailThunk_fulfilled t c)])
          (h @ [loginByEmailThunk_pending])"
        by (rule resumed_last) (rule login_user)
      from ended_last [OF this] Returned \<open>lr = Returned t\<close> show ?thesis
        by (auto simp: dispatchThunk_def loginByEmailThunk_def Let_def)
    qed
  qed
qed

lemma checkAuth_fetch_run:
  assumes "reachable stored w2 (fs @ [checkAuth_fetching t]) h"
  shows "\<exists>a. reachable stored
           (authReducer (fst (checkAuth_valid ur t w2)) (snd (checkAuth_valid ur t w2))) fs
           (h @ [a])"
proof (cases ur)
  case (Returned c)
  from assms have "reachable stored w2 (fs @ [ending (checkAuth_fulfilled t c)]) h"
    by (rule resumed_last) (rule checkAuth_user)
  from ended_last [OF this] Returned show ?thesis
    by (auto simp: checkAuth_valid_def)
next
  case (Threw m)
  from assms have "reachable stored (removeAccessToken (removeAccessToken w2))
      (fs @ [ending (checkAuth_rejected [])]) h"
    by (rule resumed_last) (rule checkAuth_user_threw)
  from ended_last [OF this] Threw show ?thesis
    by (auto simp: checkAuth_valid_def)
qed

lemma dispatch_checkAuth_run:
  assumes "reachable stored w fs h"
  shows "\<exists>a. reachable stored
           (dispatchThunk checkAuth_pending (checkAuth isTokenExpired rr ur) w) fs
           (h @ [checkAuth_pending, a])"
proof -
  let ?w1 = "authReducer w checkAuth_pending"
  let ?h1 = "h @ [checkAuth_pending]"
  obtain w2 f where b: "checkAuth_begin isTokenExpired ?w1 = (w2, f)"
    by (cases "checkAuth_begin isTokenExpired ?w1")
  from assms b have r1: "reachable stored w2 (fs @ [f]) ?h1"
    by (rule dispatch_checkAuth)
  consider (none) "\<not> hasToken (getAccessToken ?w1)"
    | (valid) token where "getAccessToken ?w1 = Some token" "truthy token" "\<not> isTokenExpired token"
    | (expired) token where "getAccessToken ?w1 = Some token" "truthy token" "isTokenExpired token"
    by (cases "getAccessToken ?w1") (auto simp: hasToken_def)
  then show ?thesis
  proof cases
    case none
    with b have "w2 = removeAccessToken ?w1"
      and "f = ending (checkAuth_rejected ''No authentication token found'')"
      by (auto simp: checkAuth_begin_def hasToken_def split: option.splits if_splits)
    with r1 have "reachable stored (removeAccessToken ?w1)
        (fs @ [ending (checkAuth_rejected ''No authentication token found'')]) ?h1"
      by simp
    from ended_last [OF this] none show ?thesis
      by (auto simp: dispatchThunk_def checkAuth_def hasToken_def split: option.splits)
  next
    case valid
    with b have "w2 = ?w1" and "f = checkAuth_fetching token"
      by (auto simp: checkAuth_begin_def)
    with r1 have "reachable stored ?w1 (fs @ [checkAuth_fetching token]) ?h1" by simp
    from checkAuth_fetch_run [OF this, of ur] valid show ?thesis
      by (auto simp: dispatchThunk_def checkAuth_def split: prod.splits)
  next
    case expired
    with b have "w2 = ?w1" and "f = checkAuth_refreshing token"
      by (auto simp: checkAuth_begin_def)
    with r1 have r2: "reachable stored ?w1 (fs @ [checkAuth_refreshing token]) ?h1" by simp
    show ?thesis
    proof (cases rr)
      case (Threw m)
      from r2 have "reachable stored (removeAccessToken (removeAccessToken ?w1))
          (fs @ [ending (checkAuth_rejected [])]) ?h1"
        by (rule resumed_last) (rule checkAuth_refresh_threw)
      from ended_last [OF this] Threw expired show ?thesis
        by (auto simp: dispatchThunk_def checkAuth_def)
    next
      case (Returned data)
      show ?thesis
      proof (cases "truthy data")
        case True
        with r2 have "reachable stored (setAccessToken data ?w1)
            (fs @ [checkAuth_fetching data]) ?h1"
          by (blast intro: resumed_last checkAuth_refresh_token)
        from checkAuth_fetch_run [OF this, of ur] True Returned expired show ?thesis
          by (auto simp: dispatchThunk_def checkAuth_def checkAuth_valid_def Let_def
              split: prod.splits call.splits)
      next
        case False
        with r2 have "reachable stored ?w1 (fs @ [checkAuth_fetching token]) ?h1"
          by (blast intro: resumed_last checkAuth_refresh_no_token)
        from checkAuth_fetch_run [OF this, of ur] False Returned expired show ?thesis
          by (auto simp: dispatchThunk_def checkAuth_def split: prod.splits)
      qed
    qed
  qed
qed

lemma dispatch_refresh_run:
  assumes "reachable stored w fs h"
  shows "\<exists>a. reachable stored
           (dispatchThunk refreshTokenThunk_pending (refreshTokenThunk rr ur) w) fs
           (h @ [refreshTokenThunk_pending, a])"
proof -
  let ?w1 = "authReducer w refreshTokenThunk_pending"
  let ?h1 = "h @ [refreshTokenThunk_pending]"
  have r1: "reachable stored ?w1 (fs @ [refresh_calling]) ?h1"
    by (rule dispatch_refreshTokenThunk [OF assms])
  show ?thesis
  proof (cases rr)
    case (Threw m)
    from r1 have "reachable stored ?w1
        (fs @ [ending (refreshTokenThunk_rejected (orElse m ''Token refresh failed''))]) ?h1"
      by (rule resumed_last) (rule refresh_threw)
    from ended_last [OF this] Threw show ?thesis
      by (auto simp: dispatchThunk_def refreshTokenThunk_def)
  next
    case (Returned data)
    show ?thesis
    proof (cases "truthy data")
      case False
      with r1 have "reachable stored ?w1
          (fs @ [ending (refreshTokenThunk_rejected ''Token refresh failed'')]) ?h1"
        by (blast intro: resumed_last refresh_no_token)
      from ended_last [OF this] False Returned show ?thesis
        by (auto simp: dispatchThunk_def refreshTokenThunk_def)
    next
      case True
      with r1 have r2: "reachable stored (setAccessToken data ?w1)
          (fs @ [refresh_fetching data]) ?h1"
        by (blast intro: resumed_last refresh_token)
      show ?thesis
      proof (cases ur)
        case (Threw m)
        from r2 have "reachable stored (setAccessToken data ?w1)
            (fs @ [ending (refreshTokenThunk_rejected (orElse m ''Token refresh failed''))]) ?h1"
          by (rule resumed_last) (rule refresh_user_threw)
        from ended_last [OF this] Threw True \<open>rr = Returned data\<close> show ?thesis
          by (auto simp: dispatchThunk_def refreshTokenThunk_def Let_def)
      next
        case (Returned dto)
        from r2 have "reachable stored (setAccessToken data ?w1)
            (fs @ [ending (refreshTokenThunk_fulfilled data
               \<lparr>id' = id' dto, fullName = fullName dto, email = User.email dto,
                phoneNumber = phoneNumber dto,
                languagePreference = orElse (Some (languagePreference dto)) ''en'',
                location = orElse (Some (location dto)) []\<rparr>)]) ?h1"
          by (rule resumed_last) (rule refresh_user)
        from ended_last [OF this] Returned True \<open>rr = Returned data\<close> show ?thesis
          by (auto simp: dispatchThunk_def refreshTokenThunk_def Let_def)
      qed
    qed
  qed
qed

lemma dispatch_logout_run:
  assumes "reachable stored w fs h"
  shows "reachable stored
           (dispatchThunk logoutThunk_pending (logoutThunk logoutCreated) w) fs
           (h @ [logoutThunk_pending, logoutThunk_fulfilled])"
proof -
  let ?w1 = "authReducer w logoutThunk_pending"
  have "reachable stored ?w1 (fs @ [logoutThunk_awaiting]) (h @ [logoutThunk_pending])"
    by (rule dispatch_logoutThunk [OF assms])
  then have "reachable stored ?w1 (fs @ [ending logoutThunk_fulfilled])
      (h @ [logoutThunk_pending])"
    by (rule resumed_last) (rule logoutThunk_resolved)
  from ended_last [OF this] show ?thesis
    by (simp add: dispatchThunk_def logoutThunk_def logoutCreated_def)
qed

subsection \<open>The invariant of the reachable states\<close>

lemma sessionInv_initial: "sessionInv stored (initialWorld stored) []"
  by (simp add: sessionInv_def initialWorld_def initialState_def)

lemma sessionInv_reduce:
  assumes "sessionInv stored w h"
  shows "sessionInv stored (authReducer w a) (h @ [a])"
  using assms by (cases a) (auto simp: sessionInv_def store_defs)

lemma sessionInv_auth:
  assumes "sessionInv stored w h" and "auth w' = auth w"
  shows "sessionInv stored w' h"
  using assms by (simp add: sessionInv_def)

lemma resume_auth:
  assumes "resume f w f' w'"
  shows "auth w' = auth w"
  using assms by cases (simp_all add: store_defs)

lemma checkAuth_begin_auth:
  assumes "checkAuth_begin isTokenExpired w = (w', f)"
  shows "auth w' = auth w"
  using assms
  by (auto simp: checkAuth_begin_def store_defs split: option.splits if_splits)

lemma fetchCurrentUser_begin_auth:
  assumes "fetchCurrentUser_begin w = (w', f)"
  shows "auth w' = auth w"
  using assms by (auto simp: fetchCurrentUser_begin_def split: if_splits)

lemma reachable_sessionInv:
  assumes "reachable stored w fs h"
  shows "sessionInv stored w h"
  using assms
proof induction
  case initial
  show ?case by (rule sessionInv_initial)
next
  case (plain w fs h a)
  from plain.IH show ?case by (rule sessionInv_reduce)
next
  case (dispatch_checkAuth w fs h isTokenExpired w' f)
  from dispatch_checkAuth.IH
  have "sessionInv stored (authReducer w checkAuth_pending) (h @ [checkAuth_pending])"
    by (rule sessionInv_reduce)
  then show ?case
    using checkAuth_begin_auth [OF dispatch_checkAuth.hyps(2)] by (rule sessionInv_auth)
next
  case (dispatch_loginByEmailThunk w fs h)
  from dispatch_loginByEmailThunk.IH show ?case by (rule sessionInv_reduce)
next
  case (dispatch_refreshTokenThunk w fs h)
  from dispatch_refreshTokenThunk.IH show ?case by (rule sessionInv_reduce)
next
  case (dispatch_registerCitizen w fs h)
  from dispatch_registerCitizen.IH show ?case by (rule sessionInv_reduce)
next
  case (dispatch_changePassword w fs h)
  from dispatch_changePassword.IH show ?case by (rule sessionInv_reduce)
next
  case (dispatch_fetchCurrentUser w fs h w' f)
  from dispatch_fetchCurrentUser.IH
  have "sessionInv stored (authReducer w fetchCurrentUser_pending)
          (h @ [fetchCurrentUser_pending])"
    by (rule sessionInv_reduce)
  then show ?case
    using fetchCurrentUser_begin_auth [OF dispatch_fetchCurrentUser.hyps(2)]
    by (rule sessionInv_auth)
next
  case (dispatch_logoutThunk w fs h)
  from dispatch_logoutThunk.IH show ?case by (rule sessionInv_reduce)
next
  case (resumed w xs f ys h f' w')
  from resumed.IH resume_auth [OF resumed.hyps(2)] show ?case by (rule sessionInv_auth)
next
  case (ended w xs a ys h)
  from ended.IH show ?case by (rule sessionInv_reduce)
qed

text \<open>
  C1, as amended. In every reachable state, thunks interleaving at their awaits,
  \<open>isAuthenticated\<close> implies that \<open>user\<close> is populated, unless no action that writes
  \<open>isAuthenticated\<close> or \<open>user\<close> has been reduced since initialisation and the Token
  Store held a non-empty token then. The state produced at initialisation has
  \<open>isAuthenticated\<close> equal to whether a non-empty token is stored, \<open>user\<close> absent and
  \<open>loading\<close> false. Nothing is implied about the Token Store of an authenticated state.
\<close>

theorem authenticated_has_user:
  assumes "reachable stored w fs h" and "isAuthenticated (auth w)"
  shows "(user (auth w) = None \<longrightarrow> hasToken stored \<and> \<not> list_ex writesSession h) \<and>
         auth (initialWorld stored) =
           \<lparr>isAuthenticated = hasToken stored, user = None, loading = False, error = None\<rparr>"
  using reachable_sessionInv [OF assms(1)] assms(2)
  by (auto simp: sessionInv_def initialWorld_def initialState_def split: if_splits)

lemma login_then_logout_reachable:
  "reachable None
     \<lparr>tokenStore = None,
      auth = \<lparr>isAuthenticated = True,
              user = Some \<lparr>id' = ''1'', fullName = ''A'', email = ''a@b.co'', phoneNumber = [],
                           languagePreference = ''en'', location = []\<rparr>,
              loading = False, error = None\<rparr>\<rparr>
     []
     [loginByEmailThunk_pending, logout,
      loginByEmailThunk_fulfilled ''tok''
        \<lparr>id' = ''1'', fullName = ''A'', email = ''a@b.co'', phoneNumber = [],
         languagePreference = ''en'', location = []\<rparr>]"
proof -
  let ?u = "\<lparr>id' = ''1'', fullName = ''A'', email = ''a@b.co'', phoneNumber = [],
            languagePreference = ''en'', location = []\<rparr>"
  let ?w1 = "authReducer (initialWorld None) loginByEmailThunk_pending"
  let ?w2 = "setAccessToken ''tok'' ?w1"
  let ?w3 = "authReducer ?w2 logout"
  let ?w4 = "authReducer ?w3 (loginByEmailThunk_fulfilled ''tok'' ?u)"
  have "reachable None ?w1 ([] @ [login_calling]) ([] @ [loginByEmailThunk_pending])"
    by (rule dispatch_loginByEmailThunk [OF initial])
  then have "reachable None ?w1 ([] @ login_calling # []) [loginByEmailThunk_pending]"
    by simp
  then have "reachable None ?w2 ([] @ login_fetching ''tok'' # []) [loginByEmailThunk_pending]"
    by (rule resumed) (rule login_token)
  then have "reachable None ?w3 ([] @ login_fetching ''tok'' # [])
               ([loginByEmailThunk_pending] @ [logout])"
    by (rule plain) simp
  then have "reachable None ?w3
               ([] @ ending (loginByEmailThunk_fulfilled ''tok'' ?u) # [])
               ([loginByEmailThunk_pending] @ [logout])"
    by (rule resumed) (rule login_user)
  then have "reachable None ?w4 ([] @ [])
               (([loginByEmailThunk_pending] @ [logout]) @
                [loginByEmailThunk_fulfilled ''tok'' ?u])"
    by (rule ended)
  then show ?thesis
    by (simp add: initialWorld_def initialState_def hasToken_def store_defs)
qed

theorem authenticated_has_user_witness:
  "reachable (Some ''tok'') (initialWorld (Some ''tok'')) [] [] \<and>
   isAuthenticated (auth (initialWorld (Some ''tok''))) \<and>
   user (auth (initialWorld (Some ''tok''))) = None \<and>
   hasToken (Some ''tok'')"
proof -
  have r: "reachable (Some ''tok'') (initialWorld (Some ''tok'')) [] []"
    by (rule initial)
  have a: "isAuthenticated (auth (initialWorld (Some ''tok'')))"
    by (simp add: initialWorld_def initialState_def hasToken_def truthy_def)
  have u: "user (auth (initialWorld (Some ''tok''))) = None"
    by (simp add: initialWorld_def initialState_def)
  from authenticated_has_user [OF r a] u have "hasToken (Some ''tok'')" by simp
  with r a u show ?thesis by simp
qed

text \<open>
  The invariant as first worded fails twice. In the initial state over a stored token the
  state is authenticated with no user and nothing loading, whether the token has expired
  (\<^verbatim>\<open>stale\<close>) or not (\<^verbatim>\<open>fresh\<close>). And a logout that is reduced while a login awaits the
  profile, after the login has stored its token, leaves the fulfilled login authenticated
  over an empty Token Store.
\<close>

theorem specInvariant_fails:
  "isAuthenticated (auth (initialWorld (Some ''stale''))) \<and>
   tokenStore (initialWorld (Some ''stale'')) = Some ''stale'' \<and>
   user (auth (initialWorld (Some ''stale''))) = None \<and>
   loading (auth (initialWorld (Some ''stale''))) = False \<and>
   \<not> specInvariant ((=) ''stale'') (initialWorld (Some ''stale'')) \<and>
   \<not> specInvariant ((=) ''stale'') (initialWorld (Some ''fresh'')) \<and>
   reachable None
     \<lparr>tokenStore = None,
      auth = \<lparr>isAuthenticated = True,
              user = Some \<lparr>id' = ''1'', fullName = ''A'', email = ''a@b.co'', phoneNumber = [],
                           languagePreference = ''en'', location = []\<rparr>,
              loading = False, error = None\<rparr>\<rparr>
     []
     [loginByEmailThunk_pending, logout,
      loginByEmailThunk_fulfilled ''tok''
        \<lparr>id' = ''1'', fullName = ''A'', email = ''a@b.co'', phoneNumber = [],
         languagePreference = ''en'', location = []\<rparr>] \<and>
   \<not> specInvariant ((=) ''stale'')
     \<lparr>tokenStore = None,
      auth = \<lparr>isAuthenticated = True,
              user = Some \<lparr>id' = ''1'', fullName = ''A'', email = ''a@b.co'', phoneNumber = [],
                           languagePreference = ''en'', location = []\<rparr>,
              loading = False, error = None\<rparr>\<rparr>"
  using login_then_logout_reachable
  by (simp add: specInvariant_def initialWorld_def initialState_def hasToken_def truthy_def)

subsection \<open>Logout\<close>

text \<open>
  C2. The claim has the Token Store empty and the auth state cleared after logout. The
  logout thunk of the source, whose awaited call only resolves, ends fulfilled with the
  auth state cleared and the Token Store as it was: over a stored token \<^verbatim>\<open>tok\<close> the
  token is still stored afterwards. The plain \<open>logout\<close> action, which the thunk never
  dispatches, does empty the Token Store.
\<close>

theorem logoutThunk_keeps_token:
  "dispatchThunk logoutThunk_pending (logoutThunk logoutCreated)
     \<lparr>tokenStore = Some ''tok'',
      auth = \<lparr>isAuthenticated = True,
              user = Some \<lparr>id' = ''1'', fullName = ''A'', email = ''a@b.co'', phoneNumber = [],
                           languagePreference = ''en'', location = []\<rparr>,
              loading = False, error = None\<rparr>\<rparr> =
     \<lparr>tokenStore = Some ''tok'',
      auth = \<lparr>isAuthenticated = False, user = None, loading = False, error = None\<rparr>\<rparr> \<and>
   tokenStore (dispatchThunk logoutThunk_pending (logoutThunk logoutCreated) w) = tokenStore w \<and>
   auth (dispatchThunk logoutThunk_pending (logoutThunk logoutCreated) w) =
     \<lparr>isAuthenticated = False, user = None, loading = False, error = None\<rparr> \<and>
   tokenStore (authReducer w logout) = None"
  by (simp add: dispatchThunk_def logoutThunk_def logoutCreated_def store_defs)

subsection \<open>Check of the stored session\<close>

lemma checkAuth_expired_refresh_throws:
  assumes "getAccessToken w = Some token" and "truthy token" and "isTokenExpired token"
  shows "dispatchThunk checkAuth_pending (checkAuth isTokenExpired (Threw m) userResponse) w =
           \<lparr>tokenStore = None,
            auth = \<lparr>isAuthenticated = False, user = None, loading = False, error = Some []\<rparr>\<rparr>"
  using assms by (simp add: dispatchThunk_def checkAuth_def store_defs)

lemma refreshTokenThunk_no_token:
  "snd (refreshTokenThunk (Returned []) userResponse w) =
     refreshTokenThunk_rejected ''Token refresh failed''"
  by (simp add: refreshTokenThunk_def truthy_def)

text \<open>
  C3. The claim has \<open>checkAuth\<close> over an expired stored token end, when the refresh
  fails, with \<open>isAuthenticated\<close> false, \<open>user\<close> absent and the Token Store empty. That
  is what happens when the refresh call throws. When the refresh answers without a token,
  which \<open>refreshTokenThunk\<close> rejects as a failed refresh, \<open>checkAuth\<close> goes on to the
  branch for a valid token: with the profile fetched it ends fulfilled, authenticated,
  with the expired token \<^verbatim>\<open>stale\<close> still stored.
\<close>

theorem checkAuth_refresh_without_token:
  "dispatchThunk checkAuth_pending
     (checkAuth ((=) ''stale'') (Returned [])
        (Returned \<lparr>id' = ''1'', fullName = ''A'', email = ''a@b.co'', phoneNumber = [],
                   languagePreference = ''en'', location = []\<rparr>))
     (initialWorld (Some ''stale'')) =
   \<lparr>tokenStore = Some ''stale'',
    auth = \<lparr>isAuthenticated = True,
            user = Some \<lparr>id' = ''1'', fullName = ''A'', email = ''a@b.co'', phoneNumber = [],
                         languagePreference = ''en'', location = []\<rparr>,
            loading = False, error = None\<rparr>\<rparr>"
  by (simp add: dispatchThunk_def checkAuth_def checkAuth_valid_def store_defs
      initialWorld_def initialState_def hasToken_def truthy_def)

subsection \<open>Pending, fulfilled, rejected\<close>

lemma dispatch_checkAuth_loading:
  "loading (auth (dispatchThunk checkAuth_pending (checkAuth i r u) w)) = False"
  by (simp add: dispatchThunk_def checkAuth_def checkAuth_valid_def store_defs Let_def
      split: option.split call.split)

lemma dispatch_login_loading:
  "loading (auth (dispatchThunk loginByEmailThunk_pending (loginByEmailThunk r u) w)) = False"
  by (simp add: dispatchThunk_def loginByEmailThunk_def store_defs Let_def split: call.split)

lemma dispatch_refresh_loading:
  "loading (auth (dispatchThunk refreshTokenThunk_pending (refreshTokenThunk r u) w)) = False"
  by (simp add: dispatchThunk_def refreshTokenThunk_def store_defs Let_def split: call.split)

lemma dispatch_logout_loading:
  "loading (auth (dispatchThunk logoutThunk_pending (logoutThunk r) w)) = False"
  by (simp add: dispatchThunk_def logoutThunk_def split: call.split)

text \<open>
  C4, as amended. For \<open>checkAuth\<close>, login, refresh and logout, the pending action sets
  \<open>loading\<close> true and \<open>error\<close> absent, and every fulfilled or rejected action sets
  \<open>loading\<close> false, so that every dispatch of these thunks ends with \<open>loading\<close>
  false; a rejection sets \<open>error\<close> to the rejected message; the rejections
  of \<open>checkAuth\<close>, login and refresh reset \<open>isAuthenticated\<close> to false and \<open>user\<close> to
  absent, while the rejection of logout keeps both. The rejection of \<open>registerCitizen\<close>
  does not change \<open>isAuthenticated\<close>.
\<close>

theorem reducer_triads:
  "auth (authReducer w checkAuth_pending) = (auth w)\<lparr>loading := True, error := None\<rparr> \<and>
   auth (authReducer w loginByEmailThunk_pending) = (auth w)\<lparr>loading := True, error := None\<rparr> \<and>
   auth (authReducer w refreshTokenThunk_pending) = (auth w)\<lparr>loading := True, error := None\<rparr> \<and>
   auth (authReducer w logoutThunk_pending) = (auth w)\<lparr>loading := True, error := None\<rparr> \<and>
   auth (authReducer w (checkAuth_fulfilled t c)) =
     \<lparr>isAuthenticated = True, user = Some c, loading = False, error = None\<rparr> \<and>
   auth (authReducer w (loginByEmailThunk_fulfilled t c)) =
     \<lparr>isAuthenticated = True, user = Some c, loading = False, error = None\<rparr> \<and>
   auth (authReducer w (refreshTokenThunk_fulfilled t c)) =
     \<lparr>isAuthenticated = True, user = Some c, loading = False, error = error (auth w)\<rparr> \<and>
   auth (authReducer w logoutThunk_fulfilled) =
     \<lparr>isAuthenticated = False, user = None, loading = False, error = None\<rparr> \<and>
   auth (authReducer w (checkAuth_rejected e)) =
     \<lparr>isAuthenticated = False, user = None, loading = False, error = Some e\<rparr> \<and>
   auth (authReducer w (loginByEmailThunk_rejected e)) =
     \<lparr>isAuthenticated = False, user = None, loading = False, error = Some e\<rparr> \<and>
   auth (authReducer w (refreshTokenThunk_rejected e)) =
     \<lparr>isAuthenticated = False, user = None, loading = False, error = Some e\<rparr> \<and>
   auth (authReducer w (logoutThunk_rejected e)) =
     (auth w)\<lparr>loading := False, error := Some e\<rparr> \<and>
   isAuthenticated (auth (authReducer w (registerCitizen_rejected e))) = isAuthenticated (auth w) \<and>
   loading (auth (dispatchThunk checkAuth_pending
                    (checkAuth isTokenExpired refreshResponse userResponse) w)) = False \<and>
   loading (auth (dispatchThunk loginByEmailThunk_pending
                    (loginByEmailThunk loginResponse userResponse) w)) = False \<and>
   loading (auth (dispatchThunk refreshTokenThunk_pending
                    (refreshTokenThunk refreshResponse userResponse) w)) = False \<and>
   loading (auth (dispatchThunk logoutThunk_pending (logoutThunk logoutCall) w)) = False"
  by (simp add: store_defs dispatch_checkAuth_loading dispatch_login_loading
      dispatch_refresh_loading dispatch_logout_loading)

text \<open>
  The claim as first worded fails for logout, whose rejection leaves the session
  authenticated with its user, and for \<open>registerCitizen\<close>, whose pending action does not
  set \<open>loading\<close>.
\<close>

theorem logout_rejection_keeps_session:
  "isAuthenticated (auth (authReducer
      \<lparr>tokenStore = Some ''tok'',
       auth = \<lparr>isAuthenticated = True,
               user = Some \<lparr>id' = ''1'', fullName = ''A'', email = ''a@b.co'', phoneNumber = [],
                            languagePreference = ''en'', location = []\<rparr>,
               loading = True, error = None\<rparr>\<rparr>
      (logoutThunk_rejected ''Logout failed''))) \<and>
   user (auth (authReducer
      \<lparr>tokenStore = Some ''tok'',
       auth = \<lparr>isAuthenticated = True,
               user = Some \<lparr>id' = ''1'', fullName = ''A'', email = ''a@b.co'', phoneNumber = [],
                            languagePreference = ''en'', location = []\<rparr>,
               loading = True, error = None\<rparr>\<rparr>
      (logoutThunk_rejected ''Logout failed''))) =
     Some \<lparr>id' = ''1'', fullName = ''A'', email = ''a@b.co'', phoneNumber = [],
            languagePreference = ''en'', location = []\<rparr> \<and>
   loading (auth (authReducer (initialWorld None) registerCitizen_pending)) = False"
  by (simp add: initialWorld_def initialState_def)

end
